theory Spec2Isabelle
  imports Main
begin

section \<open>Python text and cell values\<close>

text \<open>
  Text is a list of characters, each a code point below 256. \<open>py_isspace\<close> is
  Python's \<open>str.isspace\<close> on one such character; \<open>str.strip()\<close> and the regular
  expression class \<open>\s\<close> both use it. Case mapping is modelled on the ASCII letters,
  other characters are left as they are.
\<close>

definition py_isspace :: "char \<Rightarrow> bool" where
  "py_isspace c =
     (c \<in> set [CHR 0x09, CHR 0x0A, CHR 0x0B, CHR 0x0C, CHR 0x0D, CHR 0x1C, CHR 0x1D,
                CHR 0x1E, CHR 0x1F, CHR 0x20, CHR 0x85, CHR 0xA0])"

definition py_strip :: "string \<Rightarrow> string" where
  "py_strip s = rev (dropWhile py_isspace (rev (dropWhile py_isspace s)))"

definition upper_char :: "char \<Rightarrow> char" where
  "upper_char c =
     (case map_of (zip ''abcdefghijklmnopqrstuvwxyz'' ''ABCDEFGHIJKLMNOPQRSTUVWXYZ'') c of
        Some u \<Rightarrow> u
      | None \<Rightarrow> c)"

definition py_upper :: "string \<Rightarrow> string" where
  "py_upper s = map upper_char s"


text \<open>Decimal text of a row number or of a Python \<open>int\<close>, as \<open>str\<close> and f-strings give it.\<close>

definition digit_char :: "nat \<Rightarrow> char" where
  "digit_char d = ''0123456789'' ! d"

fun str_nat :: "nat \<Rightarrow> string" where
  "str_nat n = (if n < 10 then [digit_char n] else str_nat (n div 10) @ [digit_char (n mod 10)])"

declare str_nat.simps [simp del]

definition str_int :: "int \<Rightarrow> string" where
  "str_int i = (if i < 0 then CHR ''-'' # str_nat (nat (- i)) else str_nat (nat i))"

text \<open>
  A binary floating-point number: \<open>Finite m e\<close> is the number \<open>m * 2 ^ e\<close>; the
  infinities and not-a-number are separate values.
\<close>

datatype pyfloat = Finite int int | PosInf | NegInf | NaN

text \<open>
  The values a worksheet cell holds here: nothing, a boolean, an integer, a float or
  text. (Dates and times are outside the model.)
\<close>

datatype pyval = VNone | VBool bool | VInt int | VFloat pyfloat | VStr string

text \<open>Python's truth value, as \<open>if x\<close> and \<open>not x\<close> take it.\<close>

fun py_truthy :: "pyval \<Rightarrow> bool" where
  "py_truthy VNone = False"
| "py_truthy (VBool b) = b"
| "py_truthy (VInt i) = (i \<noteq> 0)"
| "py_truthy (VFloat (Finite m e)) = (m \<noteq> 0)"
| "py_truthy (VFloat f) = True"
| "py_truthy (VStr s) = (s \<noteq> [])"

text \<open>
  \<open>str(x)\<close>. The text of a float is the interpreter's shortest round-trip
  representation, which is not part of this program: it is the parameter
  \<open>float_str\<close>, and every statement below holds for any such function.
\<close>

fun py_str :: "(pyfloat \<Rightarrow> string) \<Rightarrow> pyval \<Rightarrow> string" where
  "py_str float_str VNone = ''None''"
| "py_str float_str (VBool b) = (if b then ''True'' else ''False'')"
| "py_str float_str (VInt i) = str_int i"
| "py_str float_str (VFloat f) = float_str f"
| "py_str float_str (VStr s) = s"

subsection \<open>\<open>normalize_description\<close>\<close>


text \<open>A text with no whitespace at either end: the fixed points of \<open>py_strip\<close>.\<close>

definition trimmed :: "string \<Rightarrow> bool" where
  "trimmed t = (t = [] \<or> (\<not> py_isspace (hd t) \<and> \<not> py_isspace (last t)))"

subsection \<open>\<open>get_item_level_py\<close>\<close>

definition get_item_level_py :: "(pyfloat \<Rightarrow> string) \<Rightarrow> pyval \<Rightarrow> int" where
  "get_item_level_py float_str item_value =
     (if \<not> py_truthy item_value then - 1
      else let clean_string = py_strip (py_str float_str item_value) in
        if clean_string = [] then - 1
        else int (count_list clean_string (CHR ''.'')) + 1)"

text \<open>
  The values the specification calls empty or blank: \<open>None\<close>, the empty text and
  whitespace-only text.
\<close>

definition is_blank_value :: "pyval \<Rightarrow> bool" where
  "is_blank_value v = (case v of VNone \<Rightarrow> True | VStr s \<Rightarrow> py_strip s = [] | _ \<Rightarrow> False)"

section \<open>Cells and fill colours\<close>

text \<open>
  A fill colour as openpyxl exposes it: \<open>cell.fill.start_color.rgb\<close>. Each link of
  the chain may be absent (\<open>None\<close>), which Python's \<open>and\<close> treats as false.
\<close>

datatype color = Color (rgb: "string option")

datatype fill = Fill (start_color: "color option")

text \<open>
  A cell: its value and its fill. A worksheet: its highest populated row and its cells
  by row and column, both counted from 1; \<open>sheet.cell(r, c)\<close> is \<open>cells sheet r c\<close>.
\<close>

record cell =
  cvalue :: pyval
  cfill :: "fill option"

record sheet =
  max_row :: nat
  cells :: "nat \<Rightarrow> nat \<Rightarrow> cell"

text \<open>\<open>sheet.cell(r, c).value = v\<close>: the value of one cell changes, its fill stays.\<close>

definition set_value :: "sheet \<Rightarrow> nat \<Rightarrow> nat \<Rightarrow> pyval \<Rightarrow> sheet" where
  "set_value sh r c v =
     sh\<lparr>cells := (cells sh)(r := (cells sh r)(c := (cells sh r c)\<lparr>cvalue := v\<rparr>))\<rparr>"

text \<open>
  \<open>get_cell_color\<close>: the guard \<open>cell.fill and cell.fill.start_color and
  cell.fill.start_color.rgb\<close> is false when a link is absent or the RGB text is
  empty; a text of 8 characters loses its first two, one of 6 is kept, and both are
  upper-cased; every other length falls through to \<open>return None\<close>.
\<close>

definition get_cell_color :: "cell \<Rightarrow> string option" where
  "get_cell_color c =
     (case cfill c of
        None \<Rightarrow> None
      | Some f \<Rightarrow>
          (case start_color f of
             None \<Rightarrow> None
           | Some sc \<Rightarrow>
               (case rgb sc of
                  None \<Rightarrow> None
                | Some color_rgb \<Rightarrow>
                    if color_rgb = [] then None
                    else if length color_rgb = 8 then Some (py_upper (drop 2 color_rgb))
                    else if length color_rgb = 6 then Some (py_upper color_rgb)
                    else None)))"

text \<open>A fill whose colour chain is complete and carries the RGB text \<open>r\<close>.\<close>

definition fill_of_rgb :: "string \<Rightarrow> fill option" where
  "fill_of_rgb r = Some (Fill (Some (Color (Some r))))"

definition cell_of :: "pyval \<Rightarrow> string \<Rightarrow> cell" where
  "cell_of v r = \<lparr>cvalue = v, cfill = fill_of_rgb r\<rparr>"

definition is_hex :: "char \<Rightarrow> bool" where
  "is_hex c = (c \<in> set ''0123456789abcdefABCDEF'')"

definition is_upper_hex :: "char \<Rightarrow> bool" where
  "is_upper_hex c = (c \<in> set ''0123456789ABCDEF'')"

section \<open>Range Collector\<close>

text \<open>
  The run-length encoder that \<open>apply_sum_and_formulas_to_curva_abc\<close> (column \<open>H\<close>)
  and \<open>apply_sum_column_i_and_delete_below\<close> (column \<open>I\<close>) both contain, with the
  column letter as the parameter \<open>col\<close>. \<open>range_token\<close> is the pair of f-strings
  under \<open>if start == end\<close>.
\<close>

definition range_token :: "string \<Rightarrow> nat \<Rightarrow> nat \<Rightarrow> string" where
  "range_token col start end =
     (if start = end then col @ str_nat start
      else col @ str_nat start @ '':'' @ col @ str_nat end)"

text \<open>
  The \<open>for i in range(1, len(colored_rows))\<close> loop over the rows after the first,
  with the state \<open>start\<close>, \<open>end\<close>, \<open>ranges\<close>; the empty list is the end of the loop,
  where the last run is appended.
\<close>

fun ranges_loop :: "string \<Rightarrow> nat \<Rightarrow> nat \<Rightarrow> string list \<Rightarrow> nat list \<Rightarrow> string list" where
  "ranges_loop col start end ranges [] = ranges @ [range_token col start end]"
| "ranges_loop col start end ranges (r # rs) =
     (if r = end + 1 then ranges_loop col start r ranges rs
      else ranges_loop col r r (ranges @ [range_token col start end]) rs)"

text \<open>\<open>if colored_rows:\<close> guards the whole block: no row, no token and no formula.\<close>

definition collect_ranges :: "string \<Rightarrow> nat list \<Rightarrow> string list" where
  "collect_ranges col colored_rows =
     (case colored_rows of
        [] \<Rightarrow> []
      | r0 # rest \<Rightarrow> ranges_loop col r0 r0 [] rest)"

fun join_comma :: "string list \<Rightarrow> string" where
  "join_comma [] = []"
| "join_comma [x] = x"
| "join_comma (x # y # ys) = x @ '','' @ join_comma (y # ys)"

definition sum_formula :: "string list \<Rightarrow> string" where
  "sum_formula ranges = ''=SUM('' @ join_comma ranges @ '')''"

subsection \<open>Reading a token back\<close>

text \<open>
  The re-expansion of the specification: a token \<open>C<start>:C<end>\<close> stands for the
  rows \<open>start..end\<close>, a token \<open>C<row>\<close> for the one row. \<open>token_bounds\<close> reads the
  two numbers off the text of the token.
\<close>

definition digit_val :: "char \<Rightarrow> nat" where
  "digit_val c = length (takeWhile (\<lambda>d. d \<noteq> c) ''0123456789'')"

definition parse_nat :: "string \<Rightarrow> nat" where
  "parse_nat s = foldl (\<lambda>acc c. 10 * acc + digit_val c) 0 s"

definition token_bounds :: "string \<Rightarrow> string \<Rightarrow> nat \<times> nat" where
  "token_bounds col tok =
     (let body = drop (length col) tok;
          first = takeWhile (\<lambda>c. c \<noteq> CHR '':'') body;
          rest = dropWhile (\<lambda>c. c \<noteq> CHR '':'') body
      in if rest = [] then (parse_nat first, parse_nat first)
         else (parse_nat first, parse_nat (drop (length col) (tl rest))))"

definition expand_token :: "string \<Rightarrow> string \<Rightarrow> nat set" where
  "expand_token col tok = {fst (token_bounds col tok) .. snd (token_bounds col tok)}"

text \<open>The runs themselves, as pairs of bounds: the loop above without the text.\<close>

fun blocks_loop :: "nat \<Rightarrow> nat \<Rightarrow> nat list \<Rightarrow> (nat \<times> nat) list" where
  "blocks_loop s e [] = [(s, e)]"
| "blocks_loop s e (r # rs) =
     (if r = e + 1 then blocks_loop s r rs else (s, e) # blocks_loop r r rs)"

section \<open>Code/Description Index\<close>

text \<open>
  \<open>str(x).strip() if x else ''\<close>, the expression that reads a code or a bank off a
  cell value.
\<close>

definition cell_text :: "(pyfloat \<Rightarrow> string) \<Rightarrow> pyval \<Rightarrow> string" where
  "cell_text float_str v = (if py_truthy v then py_strip (py_str float_str v) else [])"



text \<open>The code and the bank the scan reads on a row, and the pairs of a whole sheet.\<close>

definition abc_code :: "(pyfloat \<Rightarrow> string) \<Rightarrow> sheet \<Rightarrow> nat \<Rightarrow> string" where
  "abc_code float_str abc_sheet r = cell_text float_str (cvalue (cells abc_sheet r 1))"

definition abc_bank :: "(pyfloat \<Rightarrow> string) \<Rightarrow> sheet \<Rightarrow> nat \<Rightarrow> string" where
  "abc_bank float_str abc_sheet r = cell_text float_str (cvalue (cells abc_sheet r 2))"


text \<open>
  The banks known for a code in the middle of the scan: the one in the dictionary and
  those on the rows still to come.
\<close>

definition banks_known ::
  "(pyfloat \<Rightarrow> string) \<Rightarrow> sheet \<Rightarrow> (string \<rightharpoonup> string) \<Rightarrow> nat list \<Rightarrow> string \<Rightarrow> string set" where
  "banks_known float_str abc_sheet code_map rows c =
     set_option (code_map c) \<union>
     abc_bank float_str abc_sheet ` {r \<in> set rows. abc_code float_str abc_sheet r = c}"

text \<open>
  An ABC sheet with a header on row 1 and the given (code, bank) values in columns A
  and B of the rows from 2 on; every other cell is empty.
\<close>

definition empty_cell :: cell where
  "empty_cell = \<lparr>cvalue = VNone, cfill = None\<rparr>"


section \<open>Hierarchical Aggregator\<close>

text \<open>
  \<open>apply_sintetico_sum_hierarchy\<close>, for a worksheet that was found by its title. The
  inner loop \<open>for child_row_idx in range(row_idx + 1, last_row + 1)\<close> with its two
  lists; \<open>break\<close> returns the lists as they are.
\<close>

fun collect_children ::
  "(pyfloat \<Rightarrow> string) \<Rightarrow> sheet \<Rightarrow> int \<Rightarrow> nat list \<Rightarrow> string list \<Rightarrow> string list
     \<Rightarrow> string list \<times> string list"
where
  "collect_children float_str target_sheet parent_level [] sum_cells_i sum_cells_j =
     (sum_cells_i, sum_cells_j)"
| "collect_children float_str target_sheet parent_level (child_row_idx # rest)
       sum_cells_i sum_cells_j =
     (let child_level = get_item_level_py float_str (cvalue (cells target_sheet child_row_idx 1))
      in if child_level \<noteq> - 1 \<and> child_level \<le> parent_level then (sum_cells_i, sum_cells_j)
         else if child_level = parent_level + 1
         then collect_children float_str target_sheet parent_level rest
                (sum_cells_i @ [''I'' @ str_nat child_row_idx])
                (sum_cells_j @ [''J'' @ str_nat child_row_idx])
         else collect_children float_str target_sheet parent_level rest sum_cells_i sum_cells_j)"

text \<open>The body of the outer loop for one row; \<open>continue\<close> leaves the sheet as it is.\<close>

definition sum_hierarchy_row :: "(pyfloat \<Rightarrow> string) \<Rightarrow> nat \<Rightarrow> sheet \<Rightarrow> nat \<Rightarrow> sheet" where
  "sum_hierarchy_row float_str last_row target_sheet row_idx =
     (let cell_a = cells target_sheet row_idx 1;
          bg_color = get_cell_color cell_a
      in if bg_color = Some ''D8ECF6'' then
           (let parent_level = get_item_level_py float_str (cvalue cell_a)
            in if parent_level = - 1 then target_sheet
               else
                 (case collect_children float_str target_sheet parent_level
                         [row_idx + 1..<last_row + 1] [] [] of
                    (sum_cells_i, sum_cells_j) \<Rightarrow>
                      if sum_cells_i \<noteq> [] then
                        set_value
                          (set_value target_sheet row_idx 9 (VStr (sum_formula sum_cells_i)))
                          row_idx 10 (VStr (sum_formula sum_cells_j))
                      else target_sheet))
         else target_sheet)"

definition apply_sintetico_sum_hierarchy :: "(pyfloat \<Rightarrow> string) \<Rightarrow> sheet \<Rightarrow> sheet" where
  "apply_sintetico_sum_hierarchy float_str target_sheet =
     (let last_row = max_row target_sheet
      in foldl (sum_hierarchy_row float_str last_row) target_sheet [1..<last_row + 1])"

subsection \<open>The children of a parent, in the words of the specification\<close>

definition level_at :: "(pyfloat \<Rightarrow> string) \<Rightarrow> sheet \<Rightarrow> nat \<Rightarrow> int" where
  "level_at float_str sh r = get_item_level_py float_str (cvalue (cells sh r 1))"

text \<open>
  The rows after \<open>row_idx\<close>, up to the first one whose level is at least 0 and at most
  \<open>L\<close>, that have level \<open>L + 1\<close>.
\<close>

definition children_of :: "(pyfloat \<Rightarrow> string) \<Rightarrow> sheet \<Rightarrow> int \<Rightarrow> nat \<Rightarrow> nat \<Rightarrow> nat list" where
  "children_of float_str sh L row_idx last_row =
     filter (\<lambda>r. level_at float_str sh r = L + 1)
       (takeWhile (\<lambda>r. \<not> (0 \<le> level_at float_str sh r \<and> level_at float_str sh r \<le> L))
          [row_idx + 1..<last_row + 1])"

definition is_parent_row :: "(pyfloat \<Rightarrow> string) \<Rightarrow> sheet \<Rightarrow> nat \<Rightarrow> bool" where
  "is_parent_row float_str sh r =
     (get_cell_color (cells sh r 1) = Some ''D8ECF6'' \<and> level_at float_str sh r \<noteq> - 1)"

text \<open>
  A synthetic sheet whose column A holds the given values on the given fill colours,
  from row 1 on; every other cell is empty.
\<close>

definition sintetico_sheet_of :: "(pyval \<times> string) list \<Rightarrow> sheet" where
  "sintetico_sheet_of rows =
     \<lparr>max_row = length rows,
      cells = (\<lambda>r c.
        if 1 \<le> r \<and> r \<le> length rows \<and> c = 1
        then cell_of (fst (rows ! (r - 1))) (snd (rows ! (r - 1)))
        else empty_cell)\<rparr>"

text \<open>Five rows of levels 1, 2, 2, 3, 1; the first and the last are parent rows.\<close>

definition sintetico_example :: sheet where
  "sintetico_example =
     sintetico_sheet_of
       [(VStr ''1'', ''FFD8ECF6''), (VStr ''1.1'', ''FFDFF0D8''), (VStr ''1.2'', ''FFDFF0D8''),
        (VStr ''1.2.1'', ''FFF7F3DF''), (VStr ''2'', ''FFD8ECF6'')]"

section \<open>Lookup-strategy stages\<close>

text \<open>
  Stage 10, \<open>apply_fourth_step_cpus_sheet\<close>, for a workbook in which both sheets were
  found; \<open>abc_title\<close> is the title of the ABC sheet. The body of the loop for one
  row: a cell of column H on the fill \<open>EFEFEF\<close> gets one of two formulas. The letters
  outside ASCII in the two placeholder texts are written by their code points.
\<close>

definition fourth_step_row ::
  "(pyfloat \<Rightarrow> string) \<Rightarrow> string \<Rightarrow> string set \<Rightarrow> sheet \<Rightarrow> nat \<Rightarrow> sheet" where
  \<open>fourth_step_row float_str abc_title problematic_codes cpus_sheet row_idx =
     (let abc_sheet_name = [CHR 0x27] @ abc_title @ [CHR 0x27];
          cell_h = cells cpus_sheet row_idx 8;
          bg_color = get_cell_color cell_h
      in if bg_color = Some ''EFEFEF'' then
           (let cell_b = cells cpus_sheet row_idx 2;
                code = cell_text float_str (cvalue cell_b)
            in if code \<in> problematic_codes then
                 (let cell_d_ref = ''D'' @ str_nat row_idx;
                      formula_en = ''=IFERROR(INDEX('' @ abc_sheet_name @ ''!$G:$G,MATCH('' @
                        cell_d_ref @ '','' @ abc_sheet_name @ ''!$C:$C,0)),"Descri'' @
                        [CHR 0xE7, CHR 0xE3] @ ''o n'' @ [CHR 0xE3] @ ''o encontrada")''
                  in set_value cpus_sheet row_idx 8 (VStr formula_en))
               else
                 (let cell_b_ref = ''B'' @ str_nat row_idx;
                      formula_en = ''=IFERROR(VLOOKUP('' @ cell_b_ref @ '','' @ abc_sheet_name @
                        ''!$A:$G,7,FALSE),"C'' @ [CHR 0xF3] @ ''digo n'' @ [CHR 0xE3] @
                        ''o encontrado")''
                  in set_value cpus_sheet row_idx 8 (VStr formula_en)))
         else cpus_sheet)\<close>

definition apply_fourth_step_cpus_sheet ::
  "(pyfloat \<Rightarrow> string) \<Rightarrow> string \<Rightarrow> string set \<Rightarrow> sheet \<Rightarrow> sheet" where
  "apply_fourth_step_cpus_sheet float_str abc_title problematic_codes cpus_sheet =
     (let last_row_cpus = max_row cpus_sheet
      in foldl (fourth_step_row float_str abc_title problematic_codes) cpus_sheet
           [1..<last_row_cpus + 1])"

text \<open>
  Stage 17, \<open>apply_sintetico_step_4\<close>, for a workbook in which the three sheets were
  found. A cell of column G on the fill \<open>DFF0D8\<close> looks its composition up in the
  CPUs sheet; one on the fill \<open>F7F3DF\<close> gets one of two formulas on the ABC sheet.
  Here the code is \<open>str(value).strip()\<close> with no test of the value.
\<close>

definition sintetico_step_4_row ::
  "(pyfloat \<Rightarrow> string) \<Rightarrow> string \<Rightarrow> string \<Rightarrow> string set \<Rightarrow> sheet \<Rightarrow> nat \<Rightarrow> sheet" where
  \<open>sintetico_step_4_row float_str cpus_title abc_title problematic_codes wsOS row_idx =
     (let cpus_sheet_name = [CHR 0x27] @ cpus_title @ [CHR 0x27];
          abc_sheet_name = [CHR 0x27] @ abc_title @ [CHR 0x27];
          cell_g = cells wsOS row_idx 7;
          cellColor = get_cell_color cell_g
      in if cellColor = Some ''DFF0D8'' then
           (let cell_b_ref = ''B'' @ str_nat row_idx;
                formula_en = ''=IFERROR(VLOOKUP('' @ cell_b_ref @ '','' @ cpus_sheet_name @
                  ''!$B:$H,7,FALSE),0)''
            in set_value wsOS row_idx 7 (VStr formula_en))
         else if cellColor = Some ''F7F3DF'' then
           (let code = py_strip (py_str float_str (cvalue (cells wsOS row_idx 2)))
            in if code \<in> problematic_codes then
                 (let cell_d_ref = ''D'' @ str_nat row_idx;
                      formula_en = ''=IFERROR(INDEX('' @ abc_sheet_name @ ''!$G:$G,MATCH('' @
                        cell_d_ref @ '','' @ abc_sheet_name @ ''!$C:$C,0)),0)''
                  in set_value wsOS row_idx 7 (VStr formula_en))
               else
                 (let cell_b_ref = ''B'' @ str_nat row_idx;
                      formula_en = ''=IFERROR(VLOOKUP('' @ cell_b_ref @ '','' @ abc_sheet_name @
                        ''!$A:$G,7,FALSE),0)''
                  in set_value wsOS row_idx 7 (VStr formula_en)))
         else wsOS)\<close>

definition apply_sintetico_step_4 ::
  "(pyfloat \<Rightarrow> string) \<Rightarrow> string \<Rightarrow> string \<Rightarrow> string set \<Rightarrow> sheet \<Rightarrow> sheet" where
  "apply_sintetico_step_4 float_str cpus_title abc_title problematic_codes wsOS =
     (let lastRowOS = max_row wsOS
      in foldl (sintetico_step_4_row float_str cpus_title abc_title problematic_codes) wsOS
           [1..<lastRowOS + 1])"

subsection \<open>The shapes of the formulas\<close>

text \<open>
  A lookup wrapped in \<open>IFERROR\<close> with a fallback; the description-keyed lookup
  (\<open>INDEX\<close> of column G at the \<open>MATCH\<close> of the row's description in column C); the
  code-keyed lookup (\<open>VLOOKUP\<close> of the row's code in columns A to G).
\<close>

definition iferror :: "string \<Rightarrow> string \<Rightarrow> string" where
  "iferror lookup fallback = ''=IFERROR('' @ lookup @ '','' @ fallback @ '')''"

definition quoted_title :: "string \<Rightarrow> string" where
  "quoted_title title = [CHR 0x27] @ title @ [CHR 0x27]"

definition index_match_description :: "string \<Rightarrow> nat \<Rightarrow> string" where
  "index_match_description abc_title r =
     ''INDEX('' @ quoted_title abc_title @ ''!$G:$G,MATCH(D'' @ str_nat r @ '','' @
       quoted_title abc_title @ ''!$C:$C,0))''"

definition vlookup_code :: "string \<Rightarrow> nat \<Rightarrow> string" where
  "vlookup_code abc_title r =
     ''VLOOKUP(B'' @ str_nat r @ '','' @ quoted_title abc_title @ ''!$A:$G,7,FALSE)''"

definition description_not_found :: string where
  "description_not_found =
     [CHR 0x22] @ ''Descri'' @ [CHR 0xE7, CHR 0xE3] @ ''o n'' @ [CHR 0xE3] @ ''o encontrada'' @
     [CHR 0x22]"

definition code_not_found :: string where
  "code_not_found =
     [CHR 0x22] @ ''C'' @ [CHR 0xF3] @ ''digo n'' @ [CHR 0xE3] @ ''o encontrado'' @ [CHR 0x22]"

text \<open>
  Three rows, with the code \<open>I100\<close> in column B of row 2 and \<open>I200\<close> in the
  others, column G on the fill \<open>F7F3DF\<close> and column H on the fill \<open>EFEFEF\<close>.
\<close>

definition lookup_example :: sheet where
  "lookup_example =
     \<lparr>max_row = 3,
      cells = (\<lambda>r c.
        if c = 2 then empty_cell\<lparr>cvalue := VStr (if r = 2 then ''I100'' else ''I200'')\<rparr>
        else if c = 7 then cell_of VNone ''FFF7F3DF''
        else if c = 8 then cell_of VNone ''FFEFEFEF''
        else empty_cell)\<rparr>"

section \<open>The hierarchical key of the synthetic sheet\<close>

text \<open>
  \<open>float.is_integer()\<close> and \<open>int(x)\<close> on a float, both exact. \<open>int\<close> is called on a
  float only after \<open>is_integer\<close> has answered true, so never on an infinity or a
  not-a-number, where the value below is not meant.
\<close>

fun float_is_integer :: "pyfloat \<Rightarrow> bool" where
  "float_is_integer (Finite m e) = (0 \<le> e \<or> m mod 2 ^ nat (- e) = 0)"
| "float_is_integer f = False"

fun float_to_int :: "pyfloat \<Rightarrow> int" where
  "float_to_int (Finite m e) = (if 0 \<le> e then m * 2 ^ nat e else m div 2 ^ nat (- e))"
| "float_to_int f = 0"

subsection \<open>\<open>format(x, 'g')\<close>\<close>

text \<open>
  The general format of the interpreter with its default precision of six
  significant digits: the exact value is rounded to six digits, half to even; a decimal
  point position \<open>decpt\<close> with \<open>decpt \<le> -4\<close> or \<open>decpt > 6\<close> gives the exponent
  notation, any other the positional one; trailing zeros, and a decimal point left
  last, are dropped. All arithmetic is exact, on the fraction \<open>num / den\<close>.
\<close>

fun floor_log10 :: "nat \<Rightarrow> nat" where
  "floor_log10 q = (if q < 10 then 0 else Suc (floor_log10 (q div 10)))"

declare floor_log10.simps [simp del]

text \<open>For \<open>0 < n < den\<close>: the least \<open>k\<close> with \<open>den \<le> n * 10 ^ k\<close>.\<close>

function leading_shift :: "nat \<Rightarrow> nat \<Rightarrow> nat" where
  "leading_shift den n = (if n = 0 \<or> den \<le> n then 0 else Suc (leading_shift den (n * 10)))"
  by pat_completeness auto
termination
  by (relation "measure (\<lambda>(den, n). den - n)") auto

declare leading_shift.simps [simp del]

definition round_half_even :: "nat \<Rightarrow> nat \<Rightarrow> nat" where
  "round_half_even p q =
     (let n = p div q; r = p mod q
      in if q < 2 * r \<or> (2 * r = q \<and> odd n) then n + 1 else n)"

definition strip_trailing_zeros :: "string \<Rightarrow> string" where
  "strip_trailing_zeros ds = rev (dropWhile (\<lambda>c. c = CHR ''0'') (rev ds))"

definition format_g_finite :: "int \<Rightarrow> int \<Rightarrow> string" where
  "format_g_finite m e =
     (if m = 0 then ''0''
      else
        let a = nat \<bar>m\<bar>;
            num = (if 0 \<le> e then a * 2 ^ nat e else a);
            den = (if 0 \<le> e then 1 else 2 ^ nat (- e));
            X0 = (if den \<le> num then int (floor_log10 (num div den))
                  else - int (leading_shift den num));
            N0 = (if X0 \<le> 5 then round_half_even (num * 10 ^ nat (5 - X0)) den
                  else round_half_even num (den * 10 ^ nat (X0 - 5)));
            X = (if N0 = 1000000 then X0 + 1 else X0);
            N = (if N0 = 1000000 then 100000 else N0);
            ds = strip_trailing_zeros (str_nat N);
            decpt = X + 1;
            body =
              (if decpt \<le> - 4 \<or> 6 < decpt then
                 [hd ds] @ (if tl ds = [] then [] else ''.'' @ tl ds) @ ''e'' @
                 (if X < 0 then ''-'' else ''+'') @
                 (if \<bar>X\<bar> < 10 then ''0'' else []) @ str_nat (nat \<bar>X\<bar>)
               else if decpt \<le> 0 then ''0.'' @ replicate (nat (- decpt)) (CHR ''0'') @ ds
               else if nat decpt < length ds
               then take (nat decpt) ds @ ''.'' @ drop (nat decpt) ds
               else ds @ replicate (nat decpt - length ds) (CHR ''0''))
        in (if m < 0 then ''-'' else []) @ body)"

fun format_g :: "pyfloat \<Rightarrow> string" where
  "format_g (Finite m e) = format_g_finite m e"
| "format_g PosInf = ''inf''"
| "format_g NegInf = ''-inf''"
| "format_g NaN = ''nan''"

subsection \<open>\<open>normalize_sintetico_coluna_a\<close>\<close>

text \<open>
  The result \<open>None\<close> is Python's \<open>None\<close>. The tests follow the source's order:
  \<open>None\<close>, \<open>bool\<close>, \<open>int\<close>, \<open>float\<close>, and text last, where \<open>replace(' ', '')\<close>
  removes the spaces and \<open>replace(',', '.')\<close> turns every comma into a dot.
\<close>

fun normalize_sintetico_coluna_a :: "pyval \<Rightarrow> string option" where
  "normalize_sintetico_coluna_a VNone = None"
| "normalize_sintetico_coluna_a (VBool b) = Some (if b then ''True'' else ''False'')"
| "normalize_sintetico_coluna_a (VInt i) = Some (str_int i)"
| "normalize_sintetico_coluna_a (VFloat f) =
     (if float_is_integer f then Some (str_int (float_to_int f)) else Some (format_g f))"
| "normalize_sintetico_coluna_a (VStr s) =
     (let text_value = filter (\<lambda>c. c \<noteq> CHR 0x20) s
      in if text_value = [] then Some []
         else Some (map (\<lambda>c. if c = CHR '','' then CHR ''.'' else c) text_value))"

text \<open>The doubles nearest to 5.1 and equal to 5.0, as mantissa and binary exponent.\<close>

definition double_5_10 :: pyfloat where
  "double_5_10 = Finite 5742089524897382 (- 50)"

definition double_5_0 :: pyfloat where
  "double_5_0 = Finite 5629499534213120 (- 50)"

section \<open>Properties\<close>

subsection \<open>Fill colours\<close>

lemma length_py_upper: "length (py_upper s) = length s"
  by (simp add: py_upper_def)

lemma upper_char_hex: "is_hex c \<Longrightarrow> is_upper_hex (upper_char c)"
  unfolding is_hex_def
  apply (simp only: set_simps insert_iff empty_iff)
  apply (elim disjE)
  apply (simp_all add: upper_char_def is_upper_hex_def)
  done

lemma py_upper_hex: "list_all is_hex r \<Longrightarrow> list_all is_upper_hex (py_upper r)"
  by (induction r) (simp_all add: py_upper_def upper_char_hex)

lemma list_all_drop: "list_all P r \<Longrightarrow> list_all P (drop n r)"
  by (auto simp: list_all_iff dest: in_set_dropD)

text \<open>
  C10: the fill-colour extraction returns nothing or a text of exactly six characters:
  an RGB text of eight characters gives its last six, upper-cased, one of six gives
  itself upper-cased, every other length (such as \<open>00FF\<close>) gives nothing; and when
  the RGB text is made of hexadecimal digits, as openpyxl's colour values are, the
  result is made of upper-case hexadecimal digits.
\<close>

theorem get_cell_color_six_hex:
  "(get_cell_color c = Some s \<longrightarrow>
      length s = 6 \<and>
      (\<exists>r. cfill c = fill_of_rgb r \<and> (list_all is_hex r \<longrightarrow> list_all is_upper_hex s))) \<and>
   (length r = 8 \<longrightarrow> get_cell_color (cell_of v r) = Some (py_upper (drop 2 r))) \<and>
   (length r = 6 \<longrightarrow> get_cell_color (cell_of v r) = Some (py_upper r)) \<and>
   (length r \<noteq> 8 \<and> length r \<noteq> 6 \<longrightarrow> get_cell_color (cell_of v r) = None) \<and>
   get_cell_color (cell_of v ''00FF'') = None"
proof -
  have a: "length s = 6 \<and>
      (\<exists>r. cfill c = fill_of_rgb r \<and> (list_all is_hex r \<longrightarrow> list_all is_upper_hex s))"
    if h: "get_cell_color c = Some s"
  proof -
    from h obtain fl where f: "cfill c = Some fl"
      by (cases "cfill c") (simp_all add: get_cell_color_def)
    from h f obtain sc where sc: "start_color fl = Some sc"
      by (cases "start_color fl") (simp_all add: get_cell_color_def)
    from h f sc obtain x where x: "rgb sc = Some x"
      by (cases "rgb sc") (simp_all add: get_cell_color_def)
    have ff: "cfill c = fill_of_rgb x"
      using f sc x by (cases fl; cases sc) (simp add: fill_of_rgb_def)
    from h f sc x have s: "(length x = 8 \<and> s = py_upper (drop 2 x)) \<or> (length x = 6 \<and> s = py_upper x)"
      by (auto simp: get_cell_color_def split: if_splits)
    then have "length s = 6"
      by (auto simp: length_py_upper)
    moreover have "list_all is_hex x \<longrightarrow> list_all is_upper_hex s"
      using s by (auto intro: py_upper_hex list_all_drop)
    ultimately show ?thesis using ff by blast
  qed
  have b: "get_cell_color (cell_of v r) = Some (py_upper (drop 2 r))" if "length r = 8"
    using that by (auto simp: get_cell_color_def fill_of_rgb_def cell_of_def)
  have c: "get_cell_color (cell_of v r) = Some (py_upper r)" if "length r = 6"
    using that by (auto simp: get_cell_color_def fill_of_rgb_def cell_of_def)
  have d: "get_cell_color (cell_of v r) = None" if "length r \<noteq> 8 \<and> length r \<noteq> 6"
    using that by (auto simp: get_cell_color_def fill_of_rgb_def cell_of_def)
  have e: "get_cell_color (cell_of v ''00FF'') = None"
    by (simp add: get_cell_color_def fill_of_rgb_def cell_of_def)
  from a b c d e show ?thesis by blast
qed

theorem get_cell_color_six_hex_witness:
  "get_cell_color (cell_of VNone ''FFd8ecf6'') = Some ''D8ECF6'' \<and>
   length ''D8ECF6'' = 6 \<and> list_all is_hex ''FFd8ecf6'' \<and> list_all is_upper_hex ''D8ECF6'' \<and>
   length ''FFd8ecf6'' = 8 \<and> length ''d8ecf6'' = 6 \<and>
   get_cell_color (cell_of VNone ''d8ecf6'') = Some ''D8ECF6'' \<and>
   length ''00FF'' \<noteq> 8 \<and> length ''00FF'' \<noteq> 6 \<and> get_cell_color (cell_of VNone ''00FF'') = None"
  using get_cell_color_six_hex [of "cell_of VNone ''FFd8ecf6''" "''D8ECF6''" "''FFd8ecf6''" VNone]
    get_cell_color_six_hex [of "cell_of VNone ''d8ecf6''" "''D8ECF6''" "''d8ecf6''" VNone]
  by (simp add: py_upper_def upper_char_def is_hex_def is_upper_hex_def)

subsection \<open>Description normalization\<close>

lemma isspace_upper_char: "py_isspace (upper_char c) = py_isspace c"
  by (simp add: upper_char_def py_isspace_def)



















lemma trimmed_upper: "trimmed t \<Longrightarrow> trimmed (py_upper t)"
  by (cases "t = []")
     (simp_all add: trimmed_def py_upper_def isspace_upper_char last_map hd_map)





subsection \<open>Hierarchy level\<close>

text \<open>
  C7 (amended): for every cell value the hierarchy level is -1 exactly when the value
  is false in Python's sense (\<open>None\<close>, empty text, numeric zero, \<open>False\<close>) or its
  text is blank after trimming; every other value has a level of at least 1, the
  number of dots of the trimmed text plus one. A blank value (\<open>None\<close>, empty or
  whitespace-only text) has level -1, a text has level -1 only when it is blank, and
  \<open>3.2.1\<close> has level 3.
\<close>

theorem get_item_level_py_falsy_or_dots:
  "(get_item_level_py fs v = - 1 \<longleftrightarrow> (\<not> py_truthy v \<or> py_strip (py_str fs v) = [])) \<and>
   (get_item_level_py fs v \<noteq> - 1 \<longrightarrow>
      1 \<le> get_item_level_py fs v \<and>
      get_item_level_py fs v = int (count_list (py_strip (py_str fs v)) (CHR ''.'')) + 1) \<and>
   (is_blank_value v \<longrightarrow> get_item_level_py fs v = - 1) \<and>
   (get_item_level_py fs (VStr s) = - 1 \<longleftrightarrow> is_blank_value (VStr s)) \<and>
   get_item_level_py fs (VStr ''3.2.1'') = 3"
proof -
  have a: "get_item_level_py fs v = - 1 \<longleftrightarrow> (\<not> py_truthy v \<or> py_strip (py_str fs v) = [])"
    by (simp add: get_item_level_py_def Let_def)
  have b: "1 \<le> get_item_level_py fs v \<and>
      get_item_level_py fs v = int (count_list (py_strip (py_str fs v)) (CHR ''.'')) + 1"
    if "get_item_level_py fs v \<noteq> - 1"
    using that by (simp add: get_item_level_py_def Let_def split: if_splits)
  have s: "py_strip [] = []" by (simp add: py_strip_def)
  have d: "get_item_level_py fs (VStr s) = - 1 \<longleftrightarrow> is_blank_value (VStr s)"
    using s by (auto simp: get_item_level_py_def Let_def is_blank_value_def)
  have c: "get_item_level_py fs v = - 1" if "is_blank_value v"
    using that s by (cases v) (auto simp: get_item_level_py_def Let_def is_blank_value_def)
  have e: "get_item_level_py fs (VStr ''3.2.1'') = 3"
    by (simp add: get_item_level_py_def py_strip_def py_isspace_def)
  from a b c d e show ?thesis by blast
qed

text \<open>
  The claim as it is written fails at the integer cell value \<open>0\<close>: the value is
  neither \<open>None\<close> nor blank text, its text \<open>0\<close> has no dot, so the claim gives
  level 1; the guard \<open>if not item_value\<close> returns -1.
\<close>

theorem get_item_level_py_zero_counterexample:
  "\<forall>fs. \<not> is_blank_value (VInt 0) \<and>
        int (count_list (py_strip (py_str fs (VInt 0))) (CHR ''.'')) + 1 = 1 \<and>
        get_item_level_py fs (VInt 0) = - 1"
  by (simp add: is_blank_value_def get_item_level_py_def py_strip_def py_isspace_def
      str_int_def str_nat.simps digit_char_def)

theorem get_item_level_py_falsy_or_dots_witness:
  "\<forall>fs. get_item_level_py fs (VStr '' 2.1 '') = 2 \<and>
        get_item_level_py fs (VStr ''   '') = - 1 \<and> is_blank_value (VStr ''   '') \<and>
        get_item_level_py fs (VInt 0) = - 1 \<and> \<not> py_truthy (VInt 0) \<and>
        get_item_level_py fs (VInt 7) = 1 \<and>
        py_strip (py_str fs (VStr '' 2.1 '')) = ''2.1''"
proof
  fix fs
  have s: "py_strip (py_str fs (VStr '' 2.1 '')) = ''2.1''"
    by (simp add: py_strip_def py_isspace_def)
  have k: "py_strip (py_str fs (VInt 7)) = ''7''"
    by (simp add: py_strip_def py_isspace_def str_int_def str_nat.simps digit_char_def)
  have b: "is_blank_value (VStr ''   '')"
    by (simp add: is_blank_value_def py_strip_def py_isspace_def)
  show "get_item_level_py fs (VStr '' 2.1 '') = 2 \<and>
        get_item_level_py fs (VStr ''   '') = - 1 \<and> is_blank_value (VStr ''   '') \<and>
        get_item_level_py fs (VInt 0) = - 1 \<and> \<not> py_truthy (VInt 0) \<and>
        get_item_level_py fs (VInt 7) = 1 \<and>
        py_strip (py_str fs (VStr '' 2.1 '')) = ''2.1''"
    using get_item_level_py_falsy_or_dots [of fs "VStr '' 2.1 ''" "''   ''"]
      get_item_level_py_falsy_or_dots [of fs "VStr ''   ''" "''   ''"]
      get_item_level_py_falsy_or_dots [of fs "VInt 0" "''   ''"]
      get_item_level_py_falsy_or_dots [of fs "VInt 7" "''   ''"] s k b
    by simp
qed

subsection \<open>Range Collector\<close>

lemma lt10_cases: "d < 10 \<Longrightarrow> d = 0 \<or> d = 1 \<or> d = 2 \<or> d = 3 \<or> d = 4 \<or> d = 5 \<or> d = 6 \<or> d = 7 \<or> d = 8 \<or> d = (9::nat)"
  by arith

lemma digit_val_digit_char:
  assumes "d < 10"
  shows "digit_val (digit_char d) = d"
  using lt10_cases [OF assms] by (elim disjE) (simp_all add: digit_val_def digit_char_def)

lemma digit_char_not_colon:
  assumes "d < 10"
  shows "digit_char d \<noteq> CHR '':''"
  using lt10_cases [OF assms] by (elim disjE) (simp_all add: digit_char_def)

lemma parse_nat_snoc: "parse_nat (xs @ [c]) = 10 * parse_nat xs + digit_val c"
  by (simp add: parse_nat_def)

lemma parse_nat_str_nat: "parse_nat (str_nat n) = n"
proof (induction n rule: str_nat.induct)
  case (1 n)
  show ?case
  proof (cases "n < 10")
    case True
    then show ?thesis
      by (subst str_nat.simps) (simp add: parse_nat_def digit_val_digit_char)
  next
    case False
    with 1 have "parse_nat (str_nat (n div 10)) = n div 10" by simp
    with False show ?thesis
      by (subst str_nat.simps) (simp add: parse_nat_snoc digit_val_digit_char)
  qed
qed

lemma colon_notin_str_nat: "CHR '':'' \<notin> set (str_nat n)"
proof (induction n rule: str_nat.induct)
  case (1 n)
  show ?case
  proof (cases "n < 10")
    case True
    then show ?thesis
      using digit_char_not_colon [of n] by (subst str_nat.simps) auto
  next
    case False
    with 1 have "CHR '':'' \<notin> set (str_nat (n div 10))" by simp
    moreover have "digit_char (n mod 10) \<noteq> CHR '':''" by (rule digit_char_not_colon) simp
    ultimately show ?thesis using False
      by (subst str_nat.simps) auto
  qed
qed

lemma takeWhile_no_colon:
  "CHR '':'' \<notin> set xs \<Longrightarrow> takeWhile (\<lambda>c. c \<noteq> CHR '':'') (xs @ ys) = xs @ takeWhile (\<lambda>c. c \<noteq> CHR '':'') ys"
  by (induction xs) auto

lemma dropWhile_no_colon:
  "CHR '':'' \<notin> set xs \<Longrightarrow> dropWhile (\<lambda>c. c \<noteq> CHR '':'') (xs @ ys) = dropWhile (\<lambda>c. c \<noteq> CHR '':'') ys"
  by (induction xs) auto

lemma token_bounds_range_token: "token_bounds col (range_token col s e) = (s, e)"
proof (cases "s = e")
  case True
  have "takeWhile (\<lambda>c. c \<noteq> CHR '':'') (str_nat e) = str_nat e"
    using takeWhile_no_colon [of "str_nat e" "[]"] by (simp add: colon_notin_str_nat)
  moreover have "dropWhile (\<lambda>c. c \<noteq> CHR '':'') (str_nat e) = []"
    using dropWhile_no_colon [of "str_nat e" "[]"] by (simp add: colon_notin_str_nat)
  ultimately show ?thesis using True
    by (simp add: token_bounds_def range_token_def parse_nat_str_nat Let_def
        del: takeWhile_eq_all_conv dropWhile_eq_Nil_conv)
next
  case False
  have "takeWhile (\<lambda>c. c \<noteq> CHR '':'') (str_nat s @ '':'' @ col @ str_nat e) = str_nat s"
    by (subst takeWhile_no_colon) (simp_all add: colon_notin_str_nat)
  moreover have "dropWhile (\<lambda>c. c \<noteq> CHR '':'') (str_nat s @ '':'' @ col @ str_nat e) =
      '':'' @ col @ str_nat e"
    by (subst dropWhile_no_colon) (simp_all add: colon_notin_str_nat)
  ultimately show ?thesis using False
    by (simp add: token_bounds_def range_token_def parse_nat_str_nat Let_def)
qed

lemma ranges_loop_blocks:
  "ranges_loop col s e acc rs = acc @ map (\<lambda>(a, b). range_token col a b) (blocks_loop s e rs)"
  by (induction rs arbitrary: s e acc) simp_all

lemma bounds_of_blocks:
  "map (token_bounds col) (map (\<lambda>(a, b). range_token col a b) bs) = bs"
  by (induction bs) (auto simp: token_bounds_range_token)

lemma blocks_loop_props:
  "s \<le> e \<Longrightarrow> sorted_wrt (<) (e # rs) \<Longrightarrow>
   (\<Union>x\<in>set (blocks_loop s e rs). {fst x..snd x}) = {s..e} \<union> set rs \<and>
   (\<forall>x\<in>set (blocks_loop s e rs). fst x \<le> snd x \<and> s \<le> fst x) \<and>
   sorted_wrt (\<lambda>x y. snd x + 1 < fst y) (blocks_loop s e rs)"
proof (induction rs arbitrary: s e)
  case Nil
  then show ?case by simp
next
  case (Cons r rs)
  from Cons.prems have er: "e < r" and srt: "sorted_wrt (<) (r # rs)" by simp_all
  show ?case
  proof (cases "r = e + 1")
    case True
    from Cons.prems True have "s \<le> r" by simp
    from Cons.IH [OF this srt] True Cons.prems(1) show ?thesis
      by (auto simp: atLeastAtMostSuc_conv)
  next
    case False
    have "r \<le> r" by simp
    from Cons.IH [OF this srt] False er Cons.prems(1) show ?thesis
      by (simp, fastforce)
  qed
qed

lemma sorted_wrt_dichotomy:
  "sorted_wrt R bs \<Longrightarrow> x \<in> set bs \<Longrightarrow> y \<in> set bs \<Longrightarrow> x = y \<or> R x y \<or> R y x"
  by (induction bs) auto

lemma block_maximal:
  assumes un: "(\<Union>x\<in>set bs. {fst x..snd x}) = S"
    and le: "\<forall>x\<in>set bs. fst x \<le> (snd x :: nat)"
    and srt: "sorted_wrt (\<lambda>x y. snd x + 1 < fst y) bs"
    and x: "x \<in> set bs"
  shows "snd x + 1 \<notin> S \<and> (\<forall>r\<in>S. r + 1 \<noteq> fst x)"
proof -
  have a: False if y: "y \<in> set bs" and "fst y \<le> snd x + 1" and "snd x + 1 \<le> snd y" for y
    using sorted_wrt_dichotomy [OF srt x y] le x y that by auto
  have b: False if y: "y \<in> set bs" and "fst y \<le> r" and "r \<le> snd y" and "r + 1 = fst x" for y r
    using sorted_wrt_dichotomy [OF srt x y] le x y that by auto
  from a b show ?thesis unfolding un [symmetric] by auto
qed

text \<open>
  C1: for every strictly increasing list of row numbers (sorted, distinct), the tokens
  of the Range Collector, each read back as the rows \<open>start..end\<close> (a single token
  as its one row), give exactly the set of input rows; the runs are maximal: between
  two adjacent tokens at least one row is missing, every token is the text of its own
  bounds with \<open>start \<le> end\<close>, and neither the row after a run nor the row before it
  is an input row.
\<close>

theorem collect_ranges_expand:
  "sorted_wrt (<) colored_rows \<Longrightarrow>
   (\<Union>tok\<in>set (collect_ranges col colored_rows). expand_token col tok) = set colored_rows \<and>
   (\<forall>i. Suc i < length (collect_ranges col colored_rows) \<longrightarrow>
      snd (token_bounds col (collect_ranges col colored_rows ! i)) + 1
        < fst (token_bounds col (collect_ranges col colored_rows ! Suc i))) \<and>
   (\<forall>tok\<in>set (collect_ranges col colored_rows).
      fst (token_bounds col tok) \<le> snd (token_bounds col tok) \<and>
      tok = range_token col (fst (token_bounds col tok)) (snd (token_bounds col tok)) \<and>
      snd (token_bounds col tok) + 1 \<notin> set colored_rows \<and>
      (\<forall>r\<in>set colored_rows. r + 1 \<noteq> fst (token_bounds col tok)))"
proof (cases colored_rows)
  case Nil
  then show ?thesis by (simp add: collect_ranges_def)
next
  case (Cons r0 rest)
  assume srt: "sorted_wrt (<) colored_rows"
  define bs where "bs = blocks_loop r0 r0 rest"
  define toks where "toks = collect_ranges col colored_rows"
  have toks: "toks = map (\<lambda>(a, b). range_token col a b) bs"
    by (simp add: toks_def bs_def collect_ranges_def Cons ranges_loop_blocks)
  have tb: "map (token_bounds col) toks = bs"
    unfolding toks by (rule bounds_of_blocks)
  have len: "length toks = length bs"
    by (simp add: toks)
  have nth_tb: "token_bounds col (toks ! i) = bs ! i" if "i < length bs" for i
    using that tb len by (metis nth_map)
  have "r0 \<le> r0" by simp
  from blocks_loop_props [OF this, of rest] srt Cons
  have un: "(\<Union>x\<in>set bs. {fst x..snd x}) = set colored_rows"
    and le: "\<forall>x\<in>set bs. fst x \<le> snd x"
    and gaps: "sorted_wrt (\<lambda>x y. snd x + 1 < fst y) bs"
    by (auto simp: bs_def)
  have in_toks: "\<exists>x\<in>set bs. tok = range_token col (fst x) (snd x) \<and> token_bounds col tok = x"
    if "tok \<in> set toks" for tok
    using that by (auto simp: toks token_bounds_range_token)
  have of_bs: "range_token col (fst x) (snd x) \<in> set toks" if "x \<in> set bs" for x
    using that by (force simp: toks)
  have c1: "(\<Union>tok\<in>set toks. expand_token col tok) = set colored_rows"
  proof -
    have "(\<Union>tok\<in>set toks. expand_token col tok) = (\<Union>x\<in>set bs. {fst x..snd x})"
    proof (intro equalityI subsetI)
      fix r assume "r \<in> (\<Union>tok\<in>set toks. expand_token col tok)"
      then obtain tok where t: "tok \<in> set toks" and r: "r \<in> expand_token col tok" by blast
      from in_toks [OF t] obtain x where "x \<in> set bs" and "token_bounds col tok = x" by blast
      with r show "r \<in> (\<Union>x\<in>set bs. {fst x..snd x})"
        by (auto simp: expand_token_def)
    next
      fix r assume "r \<in> (\<Union>x\<in>set bs. {fst x..snd x})"
      then obtain x where x: "x \<in> set bs" and r: "r \<in> {fst x..snd x}" by blast
      have "expand_token col (range_token col (fst x) (snd x)) = {fst x..snd x}"
        by (simp add: expand_token_def token_bounds_range_token)
      with of_bs [OF x] r show "r \<in> (\<Union>tok\<in>set toks. expand_token col tok)" by blast
    qed
    with un show ?thesis by simp
  qed
  have c2: "snd (token_bounds col (toks ! i)) + 1 < fst (token_bounds col (toks ! Suc i))"
    if "Suc i < length toks" for i
  proof -
    from that len have i: "Suc i < length bs" by simp
    then have "snd (bs ! i) + 1 < fst (bs ! Suc i)"
      using sorted_wrt_nth_less [OF gaps, of i "Suc i"] by simp
    with i show ?thesis by (simp add: nth_tb)
  qed
  have c3: "fst (token_bounds col tok) \<le> snd (token_bounds col tok) \<and>
      tok = range_token col (fst (token_bounds col tok)) (snd (token_bounds col tok)) \<and>
      snd (token_bounds col tok) + 1 \<notin> set colored_rows \<and>
      (\<forall>r\<in>set colored_rows. r + 1 \<noteq> fst (token_bounds col tok))"
    if "tok \<in> set toks" for tok
  proof -
    from in_toks [OF that] obtain x where x: "x \<in> set bs"
      and t: "tok = range_token col (fst x) (snd x)" and b: "token_bounds col tok = x" by blast
    from block_maximal [OF un le gaps x] le x t b show ?thesis by simp
  qed
  from c1 c2 c3 show ?thesis unfolding toks_def by blast
qed

theorem collect_ranges_expand_witness:
  "sorted_wrt (<) [3, 4, 5, 7, 9, 10 :: nat] \<and>
   collect_ranges ''H'' [3, 4, 5, 7, 9, 10] = [''H3:H5'', ''H7'', ''H9:H10''] \<and>
   (\<Union>tok\<in>set [''H3:H5'', ''H7'', ''H9:H10'']. expand_token ''H'' tok) = set [3, 4, 5, 7, 9, 10]"
proof -
  have s: "sorted_wrt (<) [3, 4, 5, 7, 9, 10 :: nat]" by simp
  have c: "collect_ranges ''H'' [3, 4, 5, 7, 9, 10] = [''H3:H5'', ''H7'', ''H9:H10'']"
    by (simp add: collect_ranges_def range_token_def str_nat.simps digit_char_def)
  from collect_ranges_expand [OF s, of "''H''"]
  have "(\<Union>tok\<in>set (collect_ranges ''H'' [3, 4, 5, 7, 9, 10]). expand_token ''H'' tok) =
      set [3, 4, 5, 7, 9, 10]"
    by (rule conjunct1)
  with s c show ?thesis by (simp only:)
qed

subsection \<open>Ambiguity scan\<close>


lemma banks_known_Nil: "banks_known fs sh m [] c = set_option (m c)"
  by (simp add: banks_known_def)







subsection \<open>Hierarchical Aggregator\<close>

lemma level_range: "get_item_level_py fs v = - 1 \<or> 1 \<le> get_item_level_py fs v"
  by (simp add: get_item_level_py_def Let_def)

lemma boundary_iff:
  "(level_at fs sh r \<noteq> - 1 \<and> level_at fs sh r \<le> L) \<longleftrightarrow>
   (0 \<le> level_at fs sh r \<and> level_at fs sh r \<le> L)"
  using level_range [of fs "cvalue (cells sh r 1)"] by (auto simp: level_at_def)

lemma collect_children_spec:
  "collect_children fs sh L rs ai aj =
   (ai @ map (\<lambda>r. ''I'' @ str_nat r)
       (filter (\<lambda>r. level_at fs sh r = L + 1)
          (takeWhile (\<lambda>r. \<not> (0 \<le> level_at fs sh r \<and> level_at fs sh r \<le> L)) rs)),
    aj @ map (\<lambda>r. ''J'' @ str_nat r)
       (filter (\<lambda>r. level_at fs sh r = L + 1)
          (takeWhile (\<lambda>r. \<not> (0 \<le> level_at fs sh r \<and> level_at fs sh r \<le> L)) rs)))"
  unfolding level_at_def
proof (induction rs arbitrary: ai aj)
  case Nil
  show ?case by simp
next
  case (Cons r rs)
  have "get_item_level_py fs (cvalue (cells sh r 1)) = - 1 \<or>
      1 \<le> get_item_level_py fs (cvalue (cells sh r 1))"
    by (rule level_range)
  with Cons.IH show ?case by (auto simp: Let_def)
qed

lemma collect_children_children_of:
  "collect_children fs sh L [row_idx + 1..<last_row + 1] [] [] =
   (map (\<lambda>r. ''I'' @ str_nat r) (children_of fs sh L row_idx last_row),
    map (\<lambda>r. ''J'' @ str_nat r) (children_of fs sh L row_idx last_row))"
  by (simp add: collect_children_spec children_of_def del: upt_Suc)

lemma sum_hierarchy_row_parent:
  assumes "is_parent_row fs sh row_idx"
  shows "sum_hierarchy_row fs last_row sh row_idx =
     (if children_of fs sh (level_at fs sh row_idx) row_idx last_row = [] then sh
      else set_value
             (set_value sh row_idx 9
                (VStr (sum_formula (map (\<lambda>r. ''I'' @ str_nat r)
                   (children_of fs sh (level_at fs sh row_idx) row_idx last_row)))))
             row_idx 10
             (VStr (sum_formula (map (\<lambda>r. ''J'' @ str_nat r)
                (children_of fs sh (level_at fs sh row_idx) row_idx last_row)))))"
proof -
  from assms have blue: "get_cell_color (cells sh row_idx 1) = Some ''D8ECF6''"
    and lv: "get_item_level_py fs (cvalue (cells sh row_idx 1)) \<noteq> - 1"
    by (simp_all add: is_parent_row_def level_at_def)
  have L: "get_item_level_py fs (cvalue (cells sh row_idx 1)) = level_at fs sh row_idx"
    by (simp add: level_at_def)
  show ?thesis
    unfolding sum_hierarchy_row_def Let_def collect_children_children_of
    using blue lv by (simp add: level_at_def del: upt_Suc)
qed

lemma sum_hierarchy_row_other:
  "\<not> is_parent_row fs sh row_idx \<Longrightarrow> sum_hierarchy_row fs last_row sh row_idx = sh"
  by (auto simp: sum_hierarchy_row_def Let_def is_parent_row_def level_at_def)


lemma example_max_row: "max_row sintetico_example = 5"
  by (simp add: sintetico_example_def sintetico_sheet_of_def)

lemma example_levels:
  "level_at fs sintetico_example 1 = 1"
  "level_at fs sintetico_example 2 = 2"
  "level_at fs sintetico_example 3 = 2"
  "level_at fs sintetico_example 4 = 3"
  "level_at fs sintetico_example 5 = 1"
  by (simp_all add: sintetico_example_def sintetico_sheet_of_def level_at_def cell_of_def
      get_item_level_py_def py_strip_def py_isspace_def)

lemma example_parents:
  "is_parent_row fs sintetico_example 1" "is_parent_row fs sintetico_example 5"
  unfolding is_parent_row_def example_levels
  by (simp_all add: sintetico_example_def sintetico_sheet_of_def cell_of_def get_cell_color_def
      fill_of_rgb_def py_upper_def upper_char_def)


subsection \<open>The whole pass\<close>

lemma cells_set_value:
  "cells (set_value sh r c v) r' c' =
     (if r' = r \<and> c' = c then (cells sh r c)\<lparr>cvalue := v\<rparr> else cells sh r' c')"
  by (simp add: set_value_def)

lemma sum_hierarchy_row_cells:
  "r \<noteq> x \<or> (c \<noteq> 9 \<and> c \<noteq> 10) \<or> \<not> is_parent_row fs sh x \<or>
     children_of fs sh (level_at fs sh x) x last_row = [] \<Longrightarrow>
   cells (sum_hierarchy_row fs last_row sh x) r c = cells sh r c"
proof (cases "is_parent_row fs sh x")
  case True
  assume "r \<noteq> x \<or> (c \<noteq> 9 \<and> c \<noteq> 10) \<or> \<not> is_parent_row fs sh x \<or>
     children_of fs sh (level_at fs sh x) x last_row = []"
  with True show ?thesis
    unfolding sum_hierarchy_row_parent [OF True] by (auto simp: cells_set_value)
next
  case False
  then show ?thesis by (simp add: sum_hierarchy_row_other)
qed

lemma same_column_a:
  assumes "\<forall>r. cells sh' r 1 = cells sh r 1"
  shows "level_at fs sh' = level_at fs sh"
    and "is_parent_row fs sh' r = is_parent_row fs sh r"
    and "children_of fs sh' L r last_row = children_of fs sh L r last_row"
proof -
  show l: "level_at fs sh' = level_at fs sh"
    using assms by (auto simp: level_at_def fun_eq_iff)
  show "is_parent_row fs sh' r = is_parent_row fs sh r"
    using assms by (simp add: is_parent_row_def l)
  show "children_of fs sh' L r last_row = children_of fs sh L r last_row"
    by (simp only: children_of_def l)
qed

lemma foldl_sum_hierarchy_frame:
  assumes "\<not> is_parent_row fs sh r \<or> children_of fs sh (level_at fs sh r) r last_row = []"
    and "\<forall>r. cells sh' r 1 = cells sh r 1"
  shows "cells (foldl (sum_hierarchy_row fs last_row) sh' rs) r c = cells sh' r c"
  using assms(2)
proof (induction rs arbitrary: sh')
  case Nil
  show ?case by simp
next
  case (Cons x rs)
  let ?s = "sum_hierarchy_row fs last_row sh' x"
  have col: "\<forall>r. cells ?s r 1 = cells sh' r 1"
    by (simp add: sum_hierarchy_row_cells)
  with Cons.prems have "\<forall>r. cells ?s r 1 = cells sh r 1" by simp
  then have "cells (foldl (sum_hierarchy_row fs last_row) ?s rs) r c = cells ?s r c"
    by (rule Cons.IH)
  moreover have "cells ?s r c = cells sh' r c"
  proof (rule sum_hierarchy_row_cells)
    from assms(1) same_column_a [OF Cons.prems]
    show "r \<noteq> x \<or> (c \<noteq> 9 \<and> c \<noteq> 10) \<or> \<not> is_parent_row fs sh' x \<or>
        children_of fs sh' (level_at fs sh' x) x last_row = []"
      by (cases "r = x") auto
  qed
  ultimately show ?case by simp
qed

text \<open>
  C6: a parent row whose scan collects no child gets no formula: after the whole pass
  its cells in columns I and J (and every other cell of the row) are what they were.
\<close>

theorem childless_parent_untouched:
  "is_parent_row fs sh r \<and> children_of fs sh (level_at fs sh r) r (max_row sh) = [] \<longrightarrow>
     cells (apply_sintetico_sum_hierarchy fs sh) r 9 = cells sh r 9 \<and>
     cells (apply_sintetico_sum_hierarchy fs sh) r 10 = cells sh r 10 \<and>
     (\<forall>c. cells (apply_sintetico_sum_hierarchy fs sh) r c = cells sh r c)"
proof
  assume h: "is_parent_row fs sh r \<and> children_of fs sh (level_at fs sh r) r (max_row sh) = []"
  have "cells (foldl (sum_hierarchy_row fs (max_row sh)) sh [1..<max_row sh + 1]) r c = cells sh r c"
    for c
    by (rule foldl_sum_hierarchy_frame [where sh = sh]) (use h in simp_all)
  then show "cells (apply_sintetico_sum_hierarchy fs sh) r 9 = cells sh r 9 \<and>
     cells (apply_sintetico_sum_hierarchy fs sh) r 10 = cells sh r 10 \<and>
     (\<forall>c. cells (apply_sintetico_sum_hierarchy fs sh) r c = cells sh r c)"
    unfolding apply_sintetico_sum_hierarchy_def Let_def by blast
qed

theorem childless_parent_untouched_witness:
  "\<forall>fs. is_parent_row fs sintetico_example 5 \<and>
     children_of fs sintetico_example (level_at fs sintetico_example 5) 5
       (max_row sintetico_example) = [] \<and>
     cells (apply_sintetico_sum_hierarchy fs sintetico_example) 5 9 = empty_cell \<and>
     cells (apply_sintetico_sum_hierarchy fs sintetico_example) 5 10 = empty_cell \<and>
     cvalue (cells (apply_sintetico_sum_hierarchy fs sintetico_example) 1 9) = VStr ''=SUM(I2,I3)'' \<and>
     cvalue (cells (apply_sintetico_sum_hierarchy fs sintetico_example) 1 10) = VStr ''=SUM(J2,J3)''"
proof
  fix fs
  have u: "[5 + 1..<5 + 1] = ([] :: nat list)" by simp
  have c: "children_of fs sintetico_example (level_at fs sintetico_example 5) 5
       (max_row sintetico_example) = []"
    unfolding example_max_row example_levels children_of_def u by simp
  have e: "cells sintetico_example 5 9 = empty_cell" "cells sintetico_example 5 10 = empty_cell"
    by (simp_all add: sintetico_example_def sintetico_sheet_of_def)
  note ev = apply_sintetico_sum_hierarchy_def sum_hierarchy_row_def sintetico_example_def
    sintetico_sheet_of_def cell_of_def get_cell_color_def fill_of_rgb_def py_upper_def
    upper_char_def get_item_level_py_def py_strip_def py_isspace_def set_value_def
    sum_formula_def str_nat.simps digit_char_def empty_cell_def upt_rec
  have w: "cvalue (cells (apply_sintetico_sum_hierarchy fs sintetico_example) 1 9) = VStr ''=SUM(I2,I3)''"
    "cvalue (cells (apply_sintetico_sum_hierarchy fs sintetico_example) 1 10) = VStr ''=SUM(J2,J3)''"
    by (simp_all add: ev)
  from childless_parent_untouched [of fs sintetico_example 5] example_parents(2) [of fs] c e w
  show "is_parent_row fs sintetico_example 5 \<and>
     children_of fs sintetico_example (level_at fs sintetico_example 5) 5
       (max_row sintetico_example) = [] \<and>
     cells (apply_sintetico_sum_hierarchy fs sintetico_example) 5 9 = empty_cell \<and>
     cells (apply_sintetico_sum_hierarchy fs sintetico_example) 5 10 = empty_cell \<and>
     cvalue (cells (apply_sintetico_sum_hierarchy fs sintetico_example) 1 9) = VStr ''=SUM(I2,I3)'' \<and>
     cvalue (cells (apply_sintetico_sum_hierarchy fs sintetico_example) 1 10) = VStr ''=SUM(J2,J3)''"
    by simp
qed

subsection \<open>Lookup-strategy stages\<close>

lemma fourth_step_row_cells:
  "cells (fourth_step_row fs t P sh x) r c =
     (if r = x \<and> c = 8 \<and> get_cell_color (cells sh x 8) = Some ''EFEFEF''
      then (cells sh x 8)\<lparr>cvalue := VStr
             (if cell_text fs (cvalue (cells sh x 2)) \<in> P
              then iferror (index_match_description t x) description_not_found
              else iferror (vlookup_code t x) code_not_found)\<rparr>
      else cells sh r c)"
  by (simp add: fourth_step_row_def Let_def cells_set_value iferror_def index_match_description_def
      vlookup_code_def description_not_found_def code_not_found_def quoted_title_def)

lemma sintetico_step_4_row_cells:
  "cells (sintetico_step_4_row fs ct t P sh x) r c =
     (if r = x \<and> c = 7 \<and>
         (get_cell_color (cells sh x 7) = Some ''DFF0D8'' \<or>
          get_cell_color (cells sh x 7) = Some ''F7F3DF'')
      then (cells sh x 7)\<lparr>cvalue := VStr
             (if get_cell_color (cells sh x 7) = Some ''DFF0D8''
              then iferror (''VLOOKUP(B'' @ str_nat x @ '','' @ quoted_title ct @ ''!$B:$H,7,FALSE)'') ''0''
              else if py_strip (py_str fs (cvalue (cells sh x 2))) \<in> P
              then iferror (index_match_description t x) ''0''
              else iferror (vlookup_code t x) ''0'')\<rparr>
      else cells sh r c)"
  by (simp add: sintetico_step_4_row_def Let_def cells_set_value iferror_def index_match_description_def
      vlookup_code_def quoted_title_def)

lemma get_cell_color_cfill: "cfill c = cfill c' \<Longrightarrow> get_cell_color c = get_cell_color c'"
  by (simp add: get_cell_color_def)

lemma foldl_row_writes:
  fixes step :: "sheet \<Rightarrow> nat \<Rightarrow> sheet" and sh sh' :: sheet
  assumes step: "\<And>s x r c. cells (step s x) r c =
      (if r = x \<and> c = k \<and> W s x then (cells s x k)\<lparr>cvalue := F s x\<rparr> else cells s r c)"
    and stable: "\<And>s x. (\<forall>r c. c \<noteq> k \<longrightarrow> cells s r c = cells sh r c) \<Longrightarrow>
      (\<forall>r. cfill (cells s r k) = cfill (cells sh r k)) \<Longrightarrow> W s x = W sh x \<and> F s x = F sh x"
    and agree: "\<forall>r c. c \<noteq> k \<longrightarrow> cells sh' r c = cells sh r c"
      "\<forall>r. cfill (cells sh' r k) = cfill (cells sh r k)"
  shows "cells (foldl step sh' rs) r c =
      (if r \<in> set rs \<and> c = k \<and> W sh r then (cells sh' r k)\<lparr>cvalue := F sh r\<rparr>
       else cells sh' r c)"
  using agree
proof (induction rs arbitrary: sh')
  case Nil
  show ?case by simp
next
  case (Cons x rs)
  let ?s = "step sh' x"
  from stable [OF Cons.prems] have wf: "W sh' x = W sh x" "F sh' x = F sh x" by simp_all
  have a1: "\<forall>r c. c \<noteq> k \<longrightarrow> cells ?s r c = cells sh r c"
    using Cons.prems(1) by (simp add: step)
  have a2: "\<forall>r. cfill (cells ?s r k) = cfill (cells sh r k)"
    using Cons.prems(2) by (simp add: step)
  have "cells (foldl step ?s rs) r c =
      (if r \<in> set rs \<and> c = k \<and> W sh r then (cells ?s r k)\<lparr>cvalue := F sh r\<rparr>
       else cells ?s r c)"
    using a1 a2 by (rule Cons.IH)
  then show ?case by (auto simp: step wf)
qed


lemma apply_fourth_step_cells:
  "cells (apply_fourth_step_cpus_sheet fs t P sh) r c =
     (if r \<in> {1..max_row sh} \<and> c = 8 \<and> get_cell_color (cells sh r 8) = Some ''EFEFEF''
      then (cells sh r 8)\<lparr>cvalue := VStr
             (if cell_text fs (cvalue (cells sh r 2)) \<in> P
              then iferror (index_match_description t r) description_not_found
              else iferror (vlookup_code t r) code_not_found)\<rparr>
      else cells sh r c)"
proof -
  define W where "W = (\<lambda>(s::sheet) (x::nat). get_cell_color (cells s x 8) = Some ''EFEFEF'')"
  define F where "F = (\<lambda>(s::sheet) (x::nat). VStr (if cell_text fs (cvalue (cells s x 2)) \<in> P
              then iferror (index_match_description t x) description_not_found
              else iferror (vlookup_code t x) code_not_found))"
  have rows: "set [1..<max_row sh + 1] = {1..max_row sh}" by auto
  have step: "cells (fourth_step_row fs t P s x) r c =
        (if r = x \<and> c = 8 \<and> W s x then (cells s x 8)\<lparr>cvalue := F s x\<rparr> else cells s r c)"
    for s x r c
    unfolding W_def F_def by (rule fourth_step_row_cells)
  have stable: "W s x = W sh x \<and> F s x = F sh x"
    if a: "\<forall>r c. c \<noteq> 8 \<longrightarrow> cells s r c = cells sh r c"
      and b: "\<forall>r. cfill (cells s r 8) = cfill (cells sh r 8)" for s x
  proof -
    from b have "get_cell_color (cells s x 8) = get_cell_color (cells sh x 8)"
      by (intro get_cell_color_cfill) simp
    moreover from a have "cells s x 2 = cells sh x 2" by simp
    ultimately show ?thesis by (simp add: W_def F_def)
  qed
  have "cells (foldl (fourth_step_row fs t P) sh [1..<max_row sh + 1]) r c =
      (if r \<in> set [1..<max_row sh + 1] \<and> c = 8 \<and> W sh r
       then (cells sh r 8)\<lparr>cvalue := F sh r\<rparr> else cells sh r c)"
    by (rule foldl_row_writes [OF step stable]) simp_all
  then show ?thesis
    unfolding apply_fourth_step_cpus_sheet_def Let_def rows W_def F_def .
qed

lemma apply_sintetico_step_4_cells:
  "cells (apply_sintetico_step_4 fs ct t P sh) r c =
     (if r \<in> {1..max_row sh} \<and> c = 7 \<and>
         (get_cell_color (cells sh r 7) = Some ''DFF0D8'' \<or>
          get_cell_color (cells sh r 7) = Some ''F7F3DF'')
      then (cells sh r 7)\<lparr>cvalue := VStr
             (if get_cell_color (cells sh r 7) = Some ''DFF0D8''
              then iferror (''VLOOKUP(B'' @ str_nat r @ '','' @ quoted_title ct @ ''!$B:$H,7,FALSE)'') ''0''
              else if py_strip (py_str fs (cvalue (cells sh r 2))) \<in> P
              then iferror (index_match_description t r) ''0''
              else iferror (vlookup_code t r) ''0'')\<rparr>
      else cells sh r c)"
proof -
  define W where "W = (\<lambda>(s::sheet) (x::nat).
      get_cell_color (cells s x 7) = Some ''DFF0D8'' \<or> get_cell_color (cells s x 7) = Some ''F7F3DF'')"
  define F where "F = (\<lambda>(s::sheet) (x::nat). VStr
             (if get_cell_color (cells s x 7) = Some ''DFF0D8''
              then iferror (''VLOOKUP(B'' @ str_nat x @ '','' @ quoted_title ct @ ''!$B:$H,7,FALSE)'') ''0''
              else if py_strip (py_str fs (cvalue (cells s x 2))) \<in> P
              then iferror (index_match_description t x) ''0''
              else iferror (vlookup_code t x) ''0''))"
  have rows: "set [1..<max_row sh + 1] = {1..max_row sh}" by auto
  have step: "cells (sintetico_step_4_row fs ct t P s x) r c =
        (if r = x \<and> c = 7 \<and> W s x then (cells s x 7)\<lparr>cvalue := F s x\<rparr> else cells s r c)"
    for s x r c
    unfolding W_def F_def by (rule sintetico_step_4_row_cells)
  have stable: "W s x = W sh x \<and> F s x = F sh x"
    if a: "\<forall>r c. c \<noteq> 7 \<longrightarrow> cells s r c = cells sh r c"
      and b: "\<forall>r. cfill (cells s r 7) = cfill (cells sh r 7)" for s x
  proof -
    from b have "get_cell_color (cells s x 7) = get_cell_color (cells sh x 7)"
      by (intro get_cell_color_cfill) simp
    moreover from a have "cells s x 2 = cells sh x 2" by simp
    ultimately show ?thesis by (simp add: W_def F_def)
  qed
  have "cells (foldl (sintetico_step_4_row fs ct t P) sh [1..<max_row sh + 1]) r c =
      (if r \<in> set [1..<max_row sh + 1] \<and> c = 7 \<and> W sh r
       then (cells sh r 7)\<lparr>cvalue := F sh r\<rparr> else cells sh r c)"
    by (rule foldl_row_writes [OF step stable]) simp_all
  then show ?thesis
    unfolding apply_sintetico_step_4_def Let_def rows W_def F_def .
qed

text \<open>
  C4: after stage 10 every cell of column H on the fill \<open>EFEFEF\<close>, and after stage 17
  every cell of column G on the fill \<open>F7F3DF\<close>, holds a description-keyed
  \<open>INDEX\<close>/\<open>MATCH\<close> formula on the ABC sheet when the code of its row is in the
  set of ambiguous codes, and a code-keyed \<open>VLOOKUP\<close> formula on the ABC sheet when
  it is not; each is wrapped in \<open>IFERROR\<close>, with a placeholder text as the fallback in
  stage 10 and zero in stage 17.
\<close>

theorem lookup_strategy_by_ambiguity:
  "(r \<in> {1..max_row cpus} \<and> get_cell_color (cells cpus r 8) = Some ''EFEFEF'' \<longrightarrow>
      cvalue (cells (apply_fourth_step_cpus_sheet fs abc_title P cpus) r 8) =
        VStr (if cell_text fs (cvalue (cells cpus r 2)) \<in> P
              then iferror (index_match_description abc_title r) description_not_found
              else iferror (vlookup_code abc_title r) code_not_found)) \<and>
   (r \<in> {1..max_row os} \<and> get_cell_color (cells os r 7) = Some ''F7F3DF'' \<longrightarrow>
      cvalue (cells (apply_sintetico_step_4 fs cpus_title abc_title P os) r 7) =
        VStr (if py_strip (py_str fs (cvalue (cells os r 2))) \<in> P
              then iferror (index_match_description abc_title r) ''0''
              else iferror (vlookup_code abc_title r) ''0''))"
  by (simp add: apply_fourth_step_cells apply_sintetico_step_4_cells)

theorem lookup_strategy_by_ambiguity_witness:
  "\<forall>fs.
     cvalue (cells (apply_fourth_step_cpus_sheet fs ''ABC'' {''I100''} lookup_example) 2 8) =
       VStr (''=IFERROR(INDEX('' @ quoted_title ''ABC'' @ ''!$G:$G,MATCH(D2,'' @
         quoted_title ''ABC'' @ ''!$C:$C,0)),'' @ description_not_found @ '')'') \<and>
     cvalue (cells (apply_fourth_step_cpus_sheet fs ''ABC'' {''I100''} lookup_example) 3 8) =
       VStr (''=IFERROR(VLOOKUP(B3,'' @ quoted_title ''ABC'' @ ''!$A:$G,7,FALSE),'' @
         code_not_found @ '')'') \<and>
     cvalue (cells (apply_sintetico_step_4 fs ''CPUs'' ''ABC'' {''I100''} lookup_example) 2 7) =
       VStr (''=IFERROR(INDEX('' @ quoted_title ''ABC'' @ ''!$G:$G,MATCH(D2,'' @
         quoted_title ''ABC'' @ ''!$C:$C,0)),0)'') \<and>
     cvalue (cells (apply_sintetico_step_4 fs ''CPUs'' ''ABC'' {''I100''} lookup_example) 3 7) =
       VStr (''=IFERROR(VLOOKUP(B3,'' @ quoted_title ''ABC'' @ ''!$A:$G,7,FALSE),0)'')"
proof
  fix fs
  note ev = lookup_example_def cell_of_def empty_cell_def get_cell_color_def fill_of_rgb_def
    py_upper_def upper_char_def cell_text_def py_strip_def py_isspace_def
  have m: "2 \<in> {1..max_row lookup_example}" "3 \<in> {1..max_row lookup_example}"
    by (simp_all add: lookup_example_def)
  have g: "get_cell_color (cells lookup_example 2 8) = Some ''EFEFEF''"
    "get_cell_color (cells lookup_example 3 8) = Some ''EFEFEF''"
    "get_cell_color (cells lookup_example 2 7) = Some ''F7F3DF''"
    "get_cell_color (cells lookup_example 3 7) = Some ''F7F3DF''"
    by (simp_all add: ev)
  have c: "cell_text fs (cvalue (cells lookup_example 2 2)) = ''I100''"
    "cell_text fs (cvalue (cells lookup_example 3 2)) = ''I200''"
    "py_strip (py_str fs (cvalue (cells lookup_example 2 2))) = ''I100''"
    "py_strip (py_str fs (cvalue (cells lookup_example 3 2))) = ''I200''"
    by (simp_all add: ev)
  have s: "str_nat 2 = ''2''" "str_nat 3 = ''3''"
    by (simp_all add: str_nat.simps digit_char_def)
  note sh = iferror_def index_match_description_def vlookup_code_def
  have 1: "cvalue (cells (apply_fourth_step_cpus_sheet fs ''ABC'' {''I100''} lookup_example) 2 8) =
       VStr (''=IFERROR(INDEX('' @ quoted_title ''ABC'' @ ''!$G:$G,MATCH(D2,'' @
         quoted_title ''ABC'' @ ''!$C:$C,0)),'' @ description_not_found @ '')'')"
    using lookup_strategy_by_ambiguity [of 2 lookup_example fs "''ABC''" "{''I100''}", THEN conjunct1]
      m g by (simp add: c s sh)
  have 2: "cvalue (cells (apply_fourth_step_cpus_sheet fs ''ABC'' {''I100''} lookup_example) 3 8) =
       VStr (''=IFERROR(VLOOKUP(B3,'' @ quoted_title ''ABC'' @ ''!$A:$G,7,FALSE),'' @
         code_not_found @ '')'')"
    using lookup_strategy_by_ambiguity [of 3 lookup_example fs "''ABC''" "{''I100''}", THEN conjunct1]
      m g by (simp add: c s sh)
  have 3: "cvalue (cells (apply_sintetico_step_4 fs ''CPUs'' ''ABC'' {''I100''} lookup_example) 2 7) =
       VStr (''=IFERROR(INDEX('' @ quoted_title ''ABC'' @ ''!$G:$G,MATCH(D2,'' @
         quoted_title ''ABC'' @ ''!$C:$C,0)),0)'')"
    using lookup_strategy_by_ambiguity [of 2 _ fs _ _ lookup_example "''CPUs''" , THEN conjunct2]
      m g by (simp add: c s sh)
  have 4: "cvalue (cells (apply_sintetico_step_4 fs ''CPUs'' ''ABC'' {''I100''} lookup_example) 3 7) =
       VStr (''=IFERROR(VLOOKUP(B3,'' @ quoted_title ''ABC'' @ ''!$A:$G,7,FALSE),0)'')"
    using lookup_strategy_by_ambiguity [of 3 _ fs _ _ lookup_example "''CPUs''", THEN conjunct2]
      m g by (simp add: c s sh)
  from 1 2 3 4 show "cvalue (cells (apply_fourth_step_cpus_sheet fs ''ABC'' {''I100''} lookup_example) 2 8) =
       VStr (''=IFERROR(INDEX('' @ quoted_title ''ABC'' @ ''!$G:$G,MATCH(D2,'' @
         quoted_title ''ABC'' @ ''!$C:$C,0)),'' @ description_not_found @ '')'') \<and>
     cvalue (cells (apply_fourth_step_cpus_sheet fs ''ABC'' {''I100''} lookup_example) 3 8) =
       VStr (''=IFERROR(VLOOKUP(B3,'' @ quoted_title ''ABC'' @ ''!$A:$G,7,FALSE),'' @
         code_not_found @ '')'') \<and>
     cvalue (cells (apply_sintetico_step_4 fs ''CPUs'' ''ABC'' {''I100''} lookup_example) 2 7) =
       VStr (''=IFERROR(INDEX('' @ quoted_title ''ABC'' @ ''!$G:$G,MATCH(D2,'' @
         quoted_title ''ABC'' @ ''!$C:$C,0)),0)'') \<and>
     cvalue (cells (apply_sintetico_step_4 fs ''CPUs'' ''ABC'' {''I100''} lookup_example) 3 7) =
       VStr (''=IFERROR(VLOOKUP(B3,'' @ quoted_title ''ABC'' @ ''!$A:$G,7,FALSE),0)'')"
    by (simp only:)
qed

subsection \<open>Comparison of codes\<close>






subsection \<open>The hierarchical key\<close>

lemmas format_eval = format_g_finite_def Let_def floor_log10.simps leading_shift.simps
  round_half_even_def strip_trailing_zeros_def str_nat.simps digit_char_def str_int_def

text \<open>
  C8: the normalization of the hierarchical key maps the text \<open>3 , 2\<close> to \<open>3.2\<close>
  (spaces removed, then the comma replaced by a dot), the integer 5 to \<open>5\<close>, the float
  5.0 to \<open>5\<close>, and the float 5.10, which is not integral, to its general format
  \<open>5.1\<close>. In general a text loses its spaces and has its commas turned into dots, an
  integer gives its decimal text, an integral float the decimal text of its integer
  value, and every other float its general format.
\<close>

theorem normalize_sintetico_coluna_a_cases:
  "normalize_sintetico_coluna_a (VStr ''3 , 2'') = Some ''3.2'' \<and>
   normalize_sintetico_coluna_a (VInt 5) = Some ''5'' \<and>
   normalize_sintetico_coluna_a (VFloat double_5_0) = Some ''5'' \<and>
   normalize_sintetico_coluna_a (VFloat double_5_10) = Some ''5.1'' \<and>
   \<not> float_is_integer double_5_10 \<and> format_g double_5_10 = ''5.1'' \<and>
   normalize_sintetico_coluna_a (VStr s) =
     Some (map (\<lambda>c. if c = CHR '','' then CHR ''.'' else c) (filter (\<lambda>c. c \<noteq> CHR 0x20) s)) \<and>
   normalize_sintetico_coluna_a (VInt i) = Some (str_int i) \<and>
   (float_is_integer f \<longrightarrow> normalize_sintetico_coluna_a (VFloat f) = Some (str_int (float_to_int f))) \<and>
   (\<not> float_is_integer f \<longrightarrow> normalize_sintetico_coluna_a (VFloat f) = Some (format_g f))"
proof -
  have 1: "normalize_sintetico_coluna_a (VStr ''3 , 2'') = Some ''3.2''" by simp
  have 2: "normalize_sintetico_coluna_a (VInt 5) = Some ''5''" by (simp add: format_eval)
  have 3: "normalize_sintetico_coluna_a (VFloat double_5_0) = Some ''5''"
    by (simp add: format_eval double_5_0_def)
  have 4: "\<not> float_is_integer double_5_10" by (simp add: double_5_10_def)
  have 5: "format_g double_5_10 = ''5.1''" by (simp add: format_eval double_5_10_def)
  have 6: "normalize_sintetico_coluna_a (VFloat double_5_10) = Some ''5.1''"
    using 4 5 by simp
  have 7: "normalize_sintetico_coluna_a (VStr s) =
     Some (map (\<lambda>c. if c = CHR '','' then CHR ''.'' else c) (filter (\<lambda>c. c \<noteq> CHR 0x20) s))"
    by (simp add: Let_def)
  from 1 2 3 4 5 6 7 show ?thesis by simp
qed

theorem normalize_sintetico_coluna_a_cases_witness:
  "float_is_integer (Finite 12 (- 2)) \<and>
   normalize_sintetico_coluna_a (VFloat (Finite 12 (- 2))) = Some ''3'' \<and>
   \<not> float_is_integer (Finite (- 15) (- 2)) \<and>
   normalize_sintetico_coluna_a (VFloat (Finite (- 15) (- 2))) = Some ''-3.75'' \<and>
   \<not> float_is_integer (Finite 2469135 (- 1)) \<and>
   normalize_sintetico_coluna_a (VFloat (Finite 2469135 (- 1))) = Some ''1.23457e+06'' \<and>
   normalize_sintetico_coluna_a (VStr '' 1, 2 ,3 '') = Some ''1.2.3'' \<and>
   normalize_sintetico_coluna_a (VInt (- 42)) = Some ''-42''"
proof -
  have a: "float_is_integer (Finite 12 (- 2))" by simp
  have b: "\<not> float_is_integer (Finite (- 15) (- 2))" by simp
  have c: "\<not> float_is_integer (Finite 2469135 (- 1))" by simp
  have "normalize_sintetico_coluna_a (VFloat (Finite 12 (- 2))) = Some (str_int (float_to_int (Finite 12 (- 2))))"
    using normalize_sintetico_coluna_a_cases [of "[]" 0 "Finite 12 (- 2)"] a by blast
  then have 1: "normalize_sintetico_coluna_a (VFloat (Finite 12 (- 2))) = Some ''3''"
    by (simp add: format_eval)
  have "normalize_sintetico_coluna_a (VFloat (Finite (- 15) (- 2))) = Some (format_g (Finite (- 15) (- 2)))"
    using normalize_sintetico_coluna_a_cases [of "[]" 0 "Finite (- 15) (- 2)"] b by blast
  then have 2: "normalize_sintetico_coluna_a (VFloat (Finite (- 15) (- 2))) = Some ''-3.75''"
    by (simp add: format_eval)
  have "normalize_sintetico_coluna_a (VFloat (Finite 2469135 (- 1))) = Some (format_g (Finite 2469135 (- 1)))"
    using normalize_sintetico_coluna_a_cases [of "[]" 0 "Finite 2469135 (- 1)"] c by blast
  then have 3: "normalize_sintetico_coluna_a (VFloat (Finite 2469135 (- 1))) = Some ''1.23457e+06''"
    by (simp add: format_eval)
  have 4: "normalize_sintetico_coluna_a (VStr '' 1, 2 ,3 '') = Some ''1.2.3''" by simp
  have 5: "normalize_sintetico_coluna_a (VInt (- 42)) = Some ''-42''" by (simp add: format_eval)
  from a b c 1 2 3 4 5 show ?thesis by (simp only: simp_thms)
qed
end
